theory Spec2Isabelle
  imports Main
begin

section \<open>The useWebSocket hook: data model\<close>

text \<open>
  The repository's connection client is the React hook \<open>useWebSocket\<close>
  (\<open>hooks/useWebSocket.ts\<close>). The source holds two revisions of it; the later one
  (with the heartbeat ping, the \<open>pong\<close> filter and the close code 1000) is the one
  embedded here. \<open>addLog\<close> and \<open>getResponseType\<close> are the same in both.

  The hook's refs and React state are one record, each callback is a function on that
  record, and what the browser does (socket events, timers firing, the clock) is an
  event fed to \<open>step\<close>. A state update (\<open>setIsConnected\<close>, \<open>setEventLogs\<close>) takes
  effect where it is written; \<open>console\<close> output is left out.
\<close>

datatype ready_state = CONNECTING | OPEN | CLOSING | CLOSED

datatype log_type = Info | Success | Warning | Error

text \<open>The interface \<open>EventLog\<close>: \<open>id\<close> is \<open>Date.now().toString()\<close>.\<close>

record log_entry =
  log_id :: string
  log_timestamp :: nat
  log_type :: log_type
  log_message :: string
  log_camera_id :: "int option"

text \<open>
  A value of a frame that the hook only renders in a template literal or tests with
  \<open>||\<close>: the text it renders as, and whether it is truthy. \<open>undefined\<close> (a missing
  key) and \<open>null\<close> render as their names and are falsy; a string renders as itself
  and is falsy when empty.
\<close>

datatype jsval = JsVal (rendered: string) (truthy: bool)

definition js_undefined :: jsval where
  "js_undefined = JsVal ''undefined'' False"

definition js_null :: jsval where
  "js_null = JsVal ''null'' False"

definition js_string :: "string \<Rightarrow> jsval" where
  "js_string t = JsVal t (t \<noteq> [])"

text \<open>
  A parsed inbound frame (\<open>WebSocketMessage\<close>, an object with arbitrary keys). Only the
  keys the hook reads are kept. \<open>mtype\<close> and \<open>mcommand\<close> hold the value when it is a
  string and \<open>None\<close> otherwise: the hook compares them with string literals and looks
  \<open>data.type\<close> up in the handler map, and a parsed value that is not a string equals
  no literal and no key. \<open>msynced_settings\<close> is \<open>None\<close> when the value is \<open>undefined\<close>
  or \<open>null\<close>, where \<open>Object.entries\<close> throws, and the list of entries otherwise.
\<close>

record ws_message =
  mtype :: "string option"
  mcommand :: "string option"
  mmessage :: jsval
  malias :: jsval
  mmodel :: jsval
  merror :: jsval
  mcamera_id :: "int option"
  msynced_settings :: "(string \<times> string) list option"
  msetting_type :: jsval
  mold_value :: jsval
  mnew_value :: jsval

text \<open>
  \<open>Unparseable\<close>: \<open>JSON.parse\<close> throws, or yields \<open>null\<close> so that reading
  \<open>data.type\<close> throws.
\<close>

datatype frame = Unparseable | Parsed ws_message

text \<open>
  The argument of \<open>sendMessage\<close>: \<open>command\<close> is \<open>None\<close> when the object has no
  \<open>command\<close> key, and otherwise the key's value as the property lookup
  \<open>responseMap[command]\<close> reads it, a string; \<open>serializable\<close> is false when
  \<open>JSON.stringify\<close> throws.
\<close>

record out_message =
  command :: "string option"
  params :: "(string \<times> string) list"
  serializable :: bool

text \<open>
  A key of the \<open>messageHandlers\<close> map. \<open>getResponseType\<close> is typed
  \<open>string | null\<close>, but \<open>responseMap[command]\<close> on an object literal also finds the
  members inherited from \<open>Object.prototype\<close>; \<open>Inherited name\<close> is that member (a
  function or object, never equal to a parsed \<open>data.type\<close>).
\<close>

datatype hkey = Tag string | Inherited string

text \<open>
  A value of the map: the one-time handler \<open>sendMessage\<close> builds (it closes over
  \<open>responseType\<close> and the promise's \<open>resolve\<close>), or a caller's callback given to
  \<open>subscribe\<close>, known by a number. A caller's callback is opaque: its call is
  recorded with the payload, it does not throw, and what it does to the hook in turn
  (the application's callbacks call \<open>sendMessage\<close>) is a later event.
\<close>

datatype handler = OneShot nat hkey | Subscriber nat

text \<open>
  The promise \<open>sendMessage\<close> returns: pending, resolved with a frame's payload or with
  \<open>{ success: true }\<close>, or rejected with \<open>WebSocket is not connected\<close>,
  \<open>Request timeout\<close> or the exception of \<open>JSON.stringify\<close>.
\<close>

datatype reply = Payload ws_message | Ack

datatype failure = NotConnected | RequestTimeout | SendFailed

datatype outcome = Pending | Resolved reply | Rejected failure

text \<open>
  A pending \<open>setTimeout\<close>: its callback (the timeout of a request, with the promise to
  reject and the key to test, or the reconnect) and the time it is due.
\<close>

datatype timer = RequestTimer nat hkey nat | ReconnectTimer nat

fun due :: "timer \<Rightarrow> nat" where
  "due (RequestTimer p k d) = d"
| "due (ReconnectTimer d) = d"

text \<open>
  The state of one hook instance. \<open>urlValid\<close>: whether \<open>new WebSocket(url)\<close> succeeds
  (it throws on a malformed url). \<open>now\<close>: the clock, \<open>Date.now()\<close>. \<open>sockets\<close>: the
  sockets made so far, each with its \<open>readyState\<close>; \<open>ws\<close> is \<open>ws.current\<close>.
  \<open>closeCalls\<close> and \<open>sent\<close>: the calls of \<open>close\<close> and \<open>send\<close> on the sockets.
  \<open>reconnectTimeout\<close>: the handle of the last reconnect timer. \<open>pingInterval\<close>:
  whether the interval is set. \<open>timers\<close>: the pending timers by handle. \<open>promises\<close>:
  the promises \<open>sendMessage\<close> has returned. \<open>delivered\<close>: the calls of the callers'
  callbacks, in order.
\<close>

record hook =
  urlValid :: bool
  now :: nat
  isConnected :: bool
  isConnecting :: bool
  connectionError :: "string option"
  eventLogs :: "log_entry list"
  ws :: "nat option"
  sockets :: "nat \<rightharpoonup> ready_state"
  nextSocket :: nat
  closeCalls :: "(nat \<times> nat \<times> string) list"
  sent :: "(nat \<times> out_message) list"
  messageHandlers :: "hkey \<rightharpoonup> handler"
  reconnectAttempts :: nat
  reconnectTimeout :: "nat option"
  pingInterval :: bool
  timers :: "nat \<rightharpoonup> timer"
  nextTimer :: nat
  promises :: "nat \<rightharpoonup> outcome"
  nextPromise :: nat
  delivered :: "(nat \<times> ws_message) list"

definition maxReconnectAttempts :: nat where
  "maxReconnectAttempts = 5"

definition init :: "bool \<Rightarrow> hook" where
  "init ok = \<lparr> urlValid = ok, now = 0, isConnected = False, isConnecting = False,
     connectionError = None, eventLogs = [], ws = None, sockets = Map.empty,
     nextSocket = 0, closeCalls = [], sent = [], messageHandlers = Map.empty,
     reconnectAttempts = 0, reconnectTimeout = None, pingInterval = False,
     timers = Map.empty, nextTimer = 0, promises = Map.empty, nextPromise = 0,
     delivered = [] \<rparr>"

section \<open>Rendering\<close>

definition digit :: "nat \<Rightarrow> char" where
  "digit d = ''0123456789'' ! d"

fun string_of_nat :: "nat \<Rightarrow> string" where
  "string_of_nat n =
     (if n < 10 then [digit n] else string_of_nat (n div 10) @ [digit (n mod 10)])"

declare string_of_nat.simps [simp del]

text \<open>\<open>${x}\<close> in a template literal.\<close>

definition tpl :: "jsval \<Rightarrow> string" where
  "tpl v = rendered v"

text \<open>\<open>a || b\<close>: \<open>b\<close> when \<open>a\<close> is falsy.\<close>

definition or_else :: "jsval \<Rightarrow> jsval \<Rightarrow> jsval" where
  "or_else a b = (if truthy a then a else b)"

fun join :: "string \<Rightarrow> string list \<Rightarrow> string" where
  "join sep [] = []"
| "join sep [x] = x"
| "join sep (x # y # ys) = x @ sep @ join sep (y # ys)"

section \<open>The event log\<close>

text \<open>
  \<open>newLog\<close> is the entry \<open>addLog\<close> builds, given \<open>Date.now()\<close>; then
  \<open>setEventLogs(prev => [newLog, ...prev].slice(0, 100))\<close>.
\<close>

definition newLog :: "nat \<Rightarrow> log_type \<times> string \<times> int option \<Rightarrow> log_entry" where
  "newLog t a =
     (case a of (ty, msg, cam) \<Rightarrow>
        \<lparr> log_id = string_of_nat t, log_timestamp = t, log_type = ty, log_message = msg,
          log_camera_id = cam \<rparr>)"

definition addLog :: "log_type \<Rightarrow> string \<Rightarrow> int option \<Rightarrow> hook \<Rightarrow> hook" where
  "addLog ty msg cam s =
     s\<lparr> eventLogs := take 100 (newLog (now s) (ty, msg, cam) # eventLogs s) \<rparr>"

section \<open>Promises and timers\<close>

text \<open>A promise settles once: \<open>resolve\<close> and \<open>reject\<close> on a settled promise do nothing.\<close>

definition settle :: "nat \<Rightarrow> outcome \<Rightarrow> hook \<Rightarrow> hook" where
  "settle p v s =
     (if promises s p = Some Pending then s\<lparr> promises := (promises s)(p \<mapsto> v) \<rparr> else s)"

definition setTimeout :: "timer \<Rightarrow> hook \<Rightarrow> hook" where
  "setTimeout t s = s\<lparr> timers := (timers s)(nextTimer s \<mapsto> t), nextTimer := Suc (nextTimer s) \<rparr>"

definition clearTimeout :: "nat \<Rightarrow> hook \<Rightarrow> hook" where
  "clearTimeout tid s = s\<lparr> timers := (timers s)(tid := None) \<rparr>"

section \<open>The heartbeat\<close>

definition startPing :: "hook \<Rightarrow> hook" where
  "startPing s = s\<lparr> pingInterval := True \<rparr>"

definition stopPing :: "hook \<Rightarrow> hook" where
  "stopPing s = s\<lparr> pingInterval := False \<rparr>"

definition wsOpen :: "hook \<Rightarrow> bool" where
  "wsOpen s = (case ws s of None \<Rightarrow> False | Some sid \<Rightarrow> sockets s sid = Some OPEN)"

definition ping :: out_message where
  "ping = \<lparr> command = Some ''ping'', params = [], serializable = True \<rparr>"

text \<open>The interval's callback, every 30000 ms while the interval is set.\<close>

definition pingTick :: "hook \<Rightarrow> hook" where
  "pingTick s =
     (if pingInterval s \<and> wsOpen s
      then (case ws s of None \<Rightarrow> s | Some sid \<Rightarrow> s\<lparr> sent := sent s @ [(sid, ping)] \<rparr>)
      else s)"

section \<open>connect and the socket callbacks\<close>

definition connect :: "hook \<Rightarrow> hook" where
  "connect s =
     (if wsOpen s then s
      else let s1 = s\<lparr> isConnecting := True, connectionError := None \<rparr>
           in if urlValid s1
              then s1\<lparr> ws := Some (nextSocket s1),
                       sockets := (sockets s1)(nextSocket s1 \<mapsto> CONNECTING),
                       nextSocket := Suc (nextSocket s1) \<rparr>
              else addLog Error ''Failed to create WebSocket connection'' None
                     (s1\<lparr> isConnecting := False,
                          connectionError := Some ''Failed to create WebSocket connection'' \<rparr>))"

definition onopen :: "hook \<Rightarrow> hook" where
  "onopen s =
     startPing (addLog Success ''Connected to camera server'' None
       (s\<lparr> isConnected := True, isConnecting := False, connectionError := None,
           reconnectAttempts := 0 \<rparr>))"

definition is_pong :: "ws_message \<Rightarrow> bool" where
  "is_pong d = (mtype d = Some ''pong'' \<or> mcommand d = Some ''pong'')"

definition invoke :: "handler \<Rightarrow> ws_message \<Rightarrow> hook \<Rightarrow> hook" where
  "invoke h d s =
     (case h of
        OneShot p k \<Rightarrow>
          settle p (Resolved (Payload d)) (s\<lparr> messageHandlers := (messageHandlers s)(k := None) \<rparr>)
      | Subscriber c \<Rightarrow> s\<lparr> delivered := delivered s @ [(c, d)] \<rparr>)"

text \<open>
  The seven \<open>if\<close> statements of \<open>onmessage\<close> that write the log, in order. The
  result is \<open>None\<close> when \<open>Object.entries(data.synced_settings)\<close> throws (the key is
  missing); no other statement has run an \<open>addLog\<close> by then, the type tag being
  \<open>settings_synchronized\<close>.
\<close>

definition logFrame :: "ws_message \<Rightarrow> hook \<Rightarrow> hook option" where
  "logFrame d s =
     (let t = mtype d;
          s1 = (if t = Some ''welcome''
                then addLog Info (''Welcome: '' @ tpl (mmessage d)) None s else s);
          s2 = (if t = Some ''camera_connected''
                then addLog Success (''Camera connected: '' @ tpl (or_else (malias d) (mmodel d)))
                       (mcamera_id d) s1 else s1);
          s3 = (if t = Some ''camera_disconnected''
                then addLog Warning (''Camera disconnected: '' @ tpl (malias d)) (mcamera_id d) s2
                else s2);
          s4 = (if t = Some ''image_captured''
                then addLog Success (''Image captured by '' @ tpl (malias d)) (mcamera_id d) s3
                else s3);
          s5 = (if t = Some ''camera_error'' \<or> t = Some ''capture_error''
                then addLog Error (tpl (malias d) @ '': '' @ tpl (merror d)) (mcamera_id d) s4
                else s4)
      in if t = Some ''settings_synchronized''
         then (case msynced_settings d of
                 None \<Rightarrow> None
               | Some kvs \<Rightarrow>
                   Some (addLog Success (''Settings synchronized: '' @
                     join '', '' (map (\<lambda>(key, v). key @ '': '' @ v) kvs)) None s5))
         else if t = Some ''setting_changed''
         then Some (addLog Info (tpl (malias d) @ '': '' @ tpl (msetting_type d) @
                '' changed from '' @ tpl (mold_value d) @ '' to '' @ tpl (mnew_value d))
                (mcamera_id d) s5)
         else Some s5)"

text \<open>
  \<open>ws.onmessage\<close>. A \<open>pong\<close> returns before anything else; an exception anywhere in
  the \<open>try\<close> block is caught and logged, and the handlers are not reached.
\<close>

definition onmessage :: "frame \<Rightarrow> hook \<Rightarrow> hook" where
  "onmessage f s =
     (case f of
        Unparseable \<Rightarrow> addLog Error ''Failed to parse server message'' None s
      | Parsed d \<Rightarrow>
          if is_pong d then s
          else (case logFrame d s of
                  None \<Rightarrow> addLog Error ''Failed to parse server message'' None s
                | Some s1 \<Rightarrow>
                    (case mtype d of
                       None \<Rightarrow> s1
                     | Some t \<Rightarrow>
                         (case messageHandlers s1 (Tag t) of
                            None \<Rightarrow> s1
                          | Some h \<Rightarrow> invoke h d s1))))"

text \<open>\<open>ws.onclose\<close>, given \<open>event.code\<close> and \<open>event.reason\<close>.\<close>

definition onclose :: "nat \<Rightarrow> string \<Rightarrow> hook \<Rightarrow> hook" where
  "onclose code reason s =
     (let s1 = stopPing (s\<lparr> isConnected := False, isConnecting := False \<rparr>)
      in if code \<noteq> 1000 \<and> reconnectAttempts s1 < maxReconnectAttempts
         then let delay = 2 ^ reconnectAttempts s1 * 1000;
                  s2 = addLog Warning (''Connection lost ('' @
                         (if reason = [] then ''Unknown reason'' else reason) @
                         ''). Reconnecting in '' @ string_of_nat (delay div 1000) @ ''s...'')
                         None s1
              in (setTimeout (ReconnectTimer (now s2 + delay)) s2)
                   \<lparr> reconnectTimeout := Some (nextTimer s2) \<rparr>
         else if reconnectAttempts s1 \<ge> maxReconnectAttempts
         then addLog Error ''Connection failed after multiple attempts'' None
                (s1\<lparr> connectionError := Some ''Maximum reconnection attempts reached'' \<rparr>)
         else addLog Info ''Connection closed normally'' None s1)"

definition onerror :: "hook \<Rightarrow> hook" where
  "onerror s =
     addLog Error ''WebSocket connection error'' None
       (s\<lparr> connectionError := Some ''WebSocket connection error'' \<rparr>)"

section \<open>disconnect, sendMessage, subscribe\<close>

text \<open>\<open>ws.close(code, reason)\<close>: an open or connecting socket starts closing.\<close>

definition closeSocket :: "nat \<Rightarrow> nat \<Rightarrow> string \<Rightarrow> hook \<Rightarrow> hook" where
  "closeSocket sid code reason s =
     s\<lparr> closeCalls := closeCalls s @ [(sid, code, reason)],
        sockets := (if sockets s sid = Some OPEN \<or> sockets s sid = Some CONNECTING
                    then (sockets s)(sid \<mapsto> CLOSING) else sockets s) \<rparr>"

definition disconnect :: "hook \<Rightarrow> hook" where
  "disconnect s =
     (let s1 = (case reconnectTimeout s of None \<Rightarrow> s | Some tid \<Rightarrow> clearTimeout tid s);
          s2 = stopPing s1;
          s3 = (case ws s2 of
                  None \<Rightarrow> s2
                | Some sid \<Rightarrow> (closeSocket sid 1000 ''User disconnect'' s2)\<lparr> ws := None \<rparr>)
      in addLog Info ''Disconnected from camera server'' None
           (s3\<lparr> isConnected := False, isConnecting := False, reconnectAttempts := 0 \<rparr>))"

definition responseMap :: "(string \<times> string) list" where
  "responseMap =
     [(''discover'', ''discovery_result''),
      (''connect'', ''connect_result''),
      (''disconnect'', ''disconnect_result''),
      (''status'', ''status''),
      (''start_continuous'', ''continuous_result''),
      (''stop_continuous'', ''continuous_result''),
      (''single_shot'', ''shot_result''),
      (''set_transfer_path'', ''transfer_path_result''),
      (''get_camera_settings'', ''camera_settings_result''),
      (''set_camera_setting'', ''setting_result''),
      (''sync_master_settings'', ''sync_result''),
      (''enable_auto_sync'', ''auto_sync_result''),
      (''get_available_settings'', ''available_settings_result'')]"

text \<open>
  The members every object literal inherits from \<open>Object.prototype\<close>; each is a
  function or an object, so truthy.
\<close>

definition objectPrototype :: "string list" where
  "objectPrototype =
     [''constructor'', ''hasOwnProperty'', ''isPrototypeOf'', ''propertyIsEnumerable'',
      ''toLocaleString'', ''toString'', ''valueOf'', ''__proto__'',
      ''__defineGetter__'', ''__defineSetter__'', ''__lookupGetter__'', ''__lookupSetter__'']"

text \<open>\<open>responseMap[command] || null\<close>\<close>

definition getResponseType :: "string \<Rightarrow> hkey option" where
  "getResponseType c =
     (case map_of responseMap c of
        Some t \<Rightarrow> (if t = [] then None else Some (Tag t))
      | None \<Rightarrow> (if c \<in> set objectPrototype then Some (Inherited c) else None))"

text \<open>
  \<open>sendMessage\<close> returns a new promise; the model returns its number with the state.
\<close>

definition sendMessage :: "out_message \<Rightarrow> hook \<Rightarrow> nat \<times> hook" where
  "sendMessage m s =
     (let p = nextPromise s;
          s0 = s\<lparr> promises := (promises s)(p \<mapsto> Pending), nextPromise := Suc p \<rparr>
      in (p,
          if \<not> wsOpen s0 then settle p (Rejected NotConnected) s0
          else if \<not> serializable m then settle p (Rejected SendFailed) s0
          else
            (let s1 = (case ws s0 of None \<Rightarrow> s0
                       | Some sid \<Rightarrow> s0\<lparr> sent := sent s0 @ [(sid, m)] \<rparr>)
             in case command m of
                  None \<Rightarrow> settle p (Resolved Ack) s1
                | Some c \<Rightarrow>
                    if c \<noteq> ''ping''
                    then (case getResponseType c of
                            Some k \<Rightarrow>
                              setTimeout (RequestTimer p k (now s1 + 10000))
                                (s1\<lparr> messageHandlers := (messageHandlers s1)(k \<mapsto> OneShot p k) \<rparr>)
                          | None \<Rightarrow> settle p (Resolved Ack) s1)
                    else settle p (Resolved Ack) s1)))"

definition subscribe :: "string \<Rightarrow> nat \<Rightarrow> hook \<Rightarrow> hook" where
  "subscribe messageType c s =
     s\<lparr> messageHandlers := (messageHandlers s)(Tag messageType \<mapsto> Subscriber c) \<rparr>"

text \<open>The function \<open>subscribe\<close> returns.\<close>

definition unsubscribe :: "string \<Rightarrow> hook \<Rightarrow> hook" where
  "unsubscribe messageType s =
     s\<lparr> messageHandlers := (messageHandlers s)(Tag messageType := None) \<rparr>"

section \<open>Timers firing\<close>

text \<open>
  The callback of the request timer: \<open>if (messageHandlers.current.has(responseType))\<close>
  looks for any entry under the key. The callback of the reconnect timer:
  \<open>reconnectAttempts.current++; connect()\<close>.
\<close>

definition fireTimer :: "nat \<Rightarrow> hook \<Rightarrow> hook" where
  "fireTimer tid s =
     (case timers s tid of
        None \<Rightarrow> s
      | Some t \<Rightarrow>
          (let s1 = clearTimeout tid s
           in case t of
                RequestTimer p k d \<Rightarrow>
                  if messageHandlers s1 k \<noteq> None
                  then settle p (Rejected RequestTimeout)
                         (s1\<lparr> messageHandlers := (messageHandlers s1)(k := None) \<rparr>)
                  else s1
              | ReconnectTimer d \<Rightarrow>
                  connect (s1\<lparr> reconnectAttempts := Suc (reconnectAttempts s1) \<rparr>)))"

section \<open>The environment\<close>

text \<open>
  What can happen to the hook: a call of its interface, an event of a socket it made,
  a timer coming due, the heartbeat interval ticking, time passing. A socket event
  sets the socket's \<open>readyState\<close> as the browser does and runs the callback; events the
  browser cannot produce (an unknown socket, \<open>open\<close> on a socket that is not
  connecting, a timer that is not pending) change nothing.
\<close>

datatype event =
    CallConnect
  | CallDisconnect
  | CallSend out_message
  | CallSubscribe string nat
  | CallUnsubscribe string
  | CallAddLog log_type string "int option"
  | SockOpen nat
  | SockMessage nat frame
  | SockClose nat nat string
  | SockError nat
  | FireTimer nat
  | PingTick
  | Elapse nat

definition step :: "event \<Rightarrow> hook \<Rightarrow> hook" where
  "step e s =
     (case e of
        CallConnect \<Rightarrow> connect s
      | CallDisconnect \<Rightarrow> disconnect s
      | CallSend m \<Rightarrow> snd (sendMessage m s)
      | CallSubscribe t c \<Rightarrow> subscribe t c s
      | CallUnsubscribe t \<Rightarrow> unsubscribe t s
      | CallAddLog ty msg cam \<Rightarrow> addLog ty msg cam s
      | SockOpen sid \<Rightarrow>
          if sockets s sid = Some CONNECTING
          then onopen (s\<lparr> sockets := (sockets s)(sid \<mapsto> OPEN) \<rparr>) else s
      | SockMessage sid f \<Rightarrow>
          if sockets s sid = Some OPEN \<or> sockets s sid = Some CLOSING
          then onmessage f s else s
      | SockClose sid code reason \<Rightarrow>
          if sockets s sid \<noteq> None \<and> sockets s sid \<noteq> Some CLOSED
          then onclose code reason (s\<lparr> sockets := (sockets s)(sid \<mapsto> CLOSED) \<rparr>) else s
      | SockError sid \<Rightarrow> if sockets s sid \<noteq> None then onerror s else s
      | FireTimer tid \<Rightarrow> fireTimer tid s
      | PingTick \<Rightarrow> pingTick s
      | Elapse d \<Rightarrow> s\<lparr> now := now s + d \<rparr>)"

fun run :: "event list \<Rightarrow> hook \<Rightarrow> hook" where
  "run [] s = s"
| "run (e # es) s = run es (step e s)"

text \<open>
  The order of timers under an ideal clock: a timer fires when the clock has reached
  the time it is due and no pending timer is due before it (the earlier
  \<open>setTimeout\<close> first when two are due at the same time), and the clock does not pass
  the time a pending timer is due. \<open>timely\<close> checks that a trace keeps this order. The
  timer handles are abstract, each \<open>setTimeout\<close> making a new one.
\<close>

definition fireable :: "nat \<Rightarrow> hook \<Rightarrow> bool" where
  "fireable tid s =
     (case timers s tid of
        None \<Rightarrow> False
      | Some t \<Rightarrow>
          due t \<le> now s \<and>
          list_all (\<lambda>j. case timers s j of
                            None \<Rightarrow> True
                          | Some u \<Rightarrow> due t < due u \<or> (due t = due u \<and> tid \<le> j))
                   [0 ..< nextTimer s])"

definition punctual :: "nat \<Rightarrow> hook \<Rightarrow> bool" where
  "punctual d s =
     list_all (\<lambda>j. case timers s j of None \<Rightarrow> True | Some u \<Rightarrow> now s + d \<le> due u)
       [0 ..< nextTimer s]"

fun timely :: "event list \<Rightarrow> hook \<Rightarrow> bool" where
  "timely [] s = True"
| "timely (e # es) s =
     ((case e of FireTimer tid \<Rightarrow> fireable tid s | Elapse d \<Rightarrow> punctual d s | _ \<Rightarrow> True)
      \<and> timely es (step e s))"

section \<open>Vocabulary of the properties\<close>

text \<open>
  A call of \<open>addLog\<close> as an event, a numbered entry to tell appends apart, and the
  bound of the log.
\<close>

definition append_call :: "log_type \<times> string \<times> int option \<Rightarrow> event" where
  "append_call a = (case a of (ty, msg, cam) \<Rightarrow> CallAddLog ty msg cam)"

definition numbered :: "nat \<Rightarrow> log_type \<times> string \<times> int option" where
  "numbered i = (Info, string_of_nat i, None)"

definition logOk :: "hook \<Rightarrow> bool" where
  "logOk s = (length (eventLogs s) \<le> 100)"

text \<open>
  The key under which \<open>sendMessage\<close> registers a one-time handler, if it registers
  one: the socket is open, the message serializes, and the command is not \<open>ping\<close> and
  has a response type.
\<close>

definition waiterKey :: "out_message \<Rightarrow> hook \<Rightarrow> hkey option" where
  "waiterKey m s =
     (if wsOpen s \<and> serializable m
      then (case command m of
              None \<Rightarrow> None
            | Some c \<Rightarrow> if c \<noteq> ''ping'' then getResponseType c else None)
      else None)"


text \<open>
  One round of reconnection: the close callback runs, then the reconnect timer it
  tracks fires, if it is pending. \<open>retries\<close> runs one round for each close event of a
  list (code and reason); \<open>abnormal\<close> says that no code in the list is 1000.
\<close>

definition retry :: "nat \<Rightarrow> string \<Rightarrow> hook \<Rightarrow> hook" where
  "retry code reason s =
     (let s1 = onclose code reason s
      in case reconnectTimeout s1 of None \<Rightarrow> s1 | Some tid \<Rightarrow> fireTimer tid s1)"

fun retries :: "(nat \<times> string) list \<Rightarrow> hook \<Rightarrow> hook" where
  "retries [] s = s"
| "retries (cr # crs) s = retries crs (retry (fst cr) (snd cr) s)"

definition abnormal :: "(nat \<times> string) list \<Rightarrow> bool" where
  "abnormal crs = list_all (\<lambda>cr. fst cr \<noteq> 1000) crs"

definition trackedFired :: "hook \<Rightarrow> bool" where
  "trackedFired s = (case reconnectTimeout s of None \<Rightarrow> True | Some tid \<Rightarrow> timers s tid = None)"

text \<open>
  Invariants of the states the hook can reach. Timer handles and promise numbers at or
  above the next free one are unused. A one-time handler in the map belongs to a
  promise already made, and no promise has its handler under two keys.
  \<open>unreachable p\<close>: no handler in the map resolves promise \<open>p\<close>, and it is not resolved.
  \<open>settledAs p v\<close>: promise \<open>p\<close> is settled with \<open>v\<close>.
  \<open>stranded p\<close>: promise \<open>p\<close> is pending, and no handler and no timer is left that
  would settle it. \<open>waitersOk\<close>: a one-time handler is in the map under the key it
  closes over and its promise is pending; the timer of a request names a promise
  already made, and the key under which that promise has its handler, if it has one.
\<close>

definition timersFresh :: "hook \<Rightarrow> bool" where
  "timersFresh s = (\<forall>tid. nextTimer s \<le> tid \<longrightarrow> timers s tid = None)"

definition promisesFresh :: "hook \<Rightarrow> bool" where
  "promisesFresh s = (\<forall>p. nextPromise s \<le> p \<longrightarrow> promises s p = None)"



definition settledAs :: "nat \<Rightarrow> outcome \<Rightarrow> hook \<Rightarrow> bool" where
  "settledAs p v s = (promises s p = Some v \<and> v \<noteq> Pending \<and> promisesFresh s)"

definition stranded :: "nat \<Rightarrow> hook \<Rightarrow> bool" where
  "stranded p s =
     (promises s p = Some Pending
      \<and> p < nextPromise s
      \<and> (\<forall>k k'. messageHandlers s k \<noteq> Some (OneShot p k'))
      \<and> (\<forall>tid k d. timers s tid \<noteq> Some (RequestTimer p k d)))"


text \<open>
  Concrete messages and traces. \<open>connected\<close> is the hook after \<open>connect()\<close> and the
  socket's \<open>open\<close> event.
\<close>

definition blank :: ws_message where
  "blank = \<lparr> mtype = None, mcommand = None, mmessage = js_undefined,
     malias = js_undefined, mmodel = js_undefined, merror = js_undefined, mcamera_id = None,
     msynced_settings = None, msetting_type = js_undefined, mold_value = js_undefined,
     mnew_value = js_undefined \<rparr>"

definition status_frame :: ws_message where
  "status_frame = blank\<lparr> mtype := Some ''status'' \<rparr>"

definition pong_frame :: ws_message where
  "pong_frame = blank\<lparr> mtype := Some ''pong'' \<rparr>"

definition status_cmd :: out_message where
  "status_cmd = \<lparr> command = Some ''status'', params = [], serializable = True \<rparr>"

definition single_shot_cmd :: out_message where
  "single_shot_cmd = \<lparr> command = Some ''single_shot'', params = [], serializable = True \<rparr>"

definition constructor_cmd :: out_message where
  "constructor_cmd = \<lparr> command = Some ''constructor'', params = [], serializable = True \<rparr>"

definition connected :: hook where
  "connected = run [CallConnect, SockOpen 0] (init True)"

text \<open>
  Two requests are in flight when the socket closes with code 1006.
\<close>

definition lost_in_flight :: "event list" where
  "lost_in_flight =
     [CallConnect, SockOpen 0, CallSend status_cmd, CallSend single_shot_cmd,
      SockClose 0 1006 []]"

text \<open>
  The caller subscribes to \<open>status\<close>, connects and sends the \<open>status\<close> command; the
  server replies, and later pushes a second \<open>status\<close> frame.
\<close>

definition subscribed_then_sent :: "event list" where
  "subscribed_then_sent =
     [CallSubscribe ''status'' 7, CallConnect, SockOpen 0, CallSend status_cmd,
      SockMessage 0 (Parsed status_frame), SockMessage 0 (Parsed status_frame)]"

text \<open>
  Two \<open>status\<close> commands are sent one after the other; one reply arrives; ten seconds
  after the sends both request timers fire.
\<close>

definition two_in_flight :: "event list" where
  "two_in_flight =
     [CallConnect, SockOpen 0, CallSend status_cmd, CallSend status_cmd,
      SockMessage 0 (Parsed status_frame), Elapse 10000, FireTimer 0, FireTimer 1]"

text \<open>
  A \<open>status\<close> command is sent and answered. Five seconds later it is sent again and
  not answered. The timer of the first request fires ten seconds after the first send,
  the timer of the second ten seconds after the second send; a reply comes a second
  after that.
\<close>

definition resent_within_ten_seconds :: "event list" where
  "resent_within_ten_seconds =
     [CallConnect, SockOpen 0, CallSend status_cmd, SockMessage 0 (Parsed status_frame),
      Elapse 5000, CallSend status_cmd, Elapse 5000, FireTimer 0, Elapse 5000, FireTimer 1,
      Elapse 1000, SockMessage 0 (Parsed status_frame)]"

text \<open>
  A command named like a member of \<open>Object.prototype\<close> is sent on an open socket.
\<close>

definition inherited_name_sent :: "event list" where
  "inherited_name_sent =
     [CallConnect, SockOpen 0, CallSend constructor_cmd]"

text \<open>
  Five reconnection attempts fail one after the other, each socket closing with code
  1006 as soon as it is made, each timer firing when it is due.
\<close>

definition backoff_trace :: "event list" where
  "backoff_trace =
     [CallConnect, SockOpen 0,
      SockClose 0 1006 [], Elapse 1000, FireTimer 0,
      SockClose 1 1006 [], Elapse 2000, FireTimer 1,
      SockClose 2 1006 [], Elapse 4000, FireTimer 2,
      SockClose 3 1006 [], Elapse 8000, FireTimer 3,
      SockClose 4 1006 [], Elapse 16000, FireTimer 4,
      SockClose 5 1006 []]"

section \<open>What each operation does to each part of the state\<close>

lemmas scenarios = lost_in_flight_def resent_within_ten_seconds_def two_in_flight_def
  subscribed_then_sent_def inherited_name_sent_def status_cmd_def status_frame_def blank_def
  single_shot_cmd_def constructor_cmd_def connected_def pong_frame_def

lemmas hook_defs = init_def step_def connect_def disconnect_def onopen_def sendMessage_def
  onmessage_def onclose_def onerror_def fireTimer_def settle_def setTimeout_def
  clearTimeout_def closeSocket_def wsOpen_def addLog_def startPing_def stopPing_def
  getResponseType_def responseMap_def objectPrototype_def is_pong_def logFrame_def invoke_def
  fireable_def punctual_def maxReconnectAttempts_def subscribe_def unsubscribe_def Let_def

lemma addLog_frame [simp]:
  "messageHandlers (addLog ty msg cam s) = messageHandlers s"
  "promises (addLog ty msg cam s) = promises s"
  "timers (addLog ty msg cam s) = timers s"
  "nextTimer (addLog ty msg cam s) = nextTimer s"
  "nextPromise (addLog ty msg cam s) = nextPromise s"
  "reconnectAttempts (addLog ty msg cam s) = reconnectAttempts s"
  "reconnectTimeout (addLog ty msg cam s) = reconnectTimeout s"
  "connectionError (addLog ty msg cam s) = connectionError s"
  "pingInterval (addLog ty msg cam s) = pingInterval s"
  "delivered (addLog ty msg cam s) = delivered s"
  "ws (addLog ty msg cam s) = ws s"
  "sockets (addLog ty msg cam s) = sockets s"
  "closeCalls (addLog ty msg cam s) = closeCalls s"
  "urlValid (addLog ty msg cam s) = urlValid s"
  "isConnected (addLog ty msg cam s) = isConnected s"
  "isConnecting (addLog ty msg cam s) = isConnecting s"
  "sent (addLog ty msg cam s) = sent s"
  "now (addLog ty msg cam s) = now s"
  by (simp_all add: addLog_def)

lemma eventLogs_addLog:
  "eventLogs (addLog ty msg cam s) = take 100 (newLog (now s) (ty, msg, cam) # eventLogs s)"
  by (simp add: addLog_def)

lemma now_addLog: "now (addLog ty msg cam s) = now s"
  by (simp add: addLog_def)

lemma length_eventLogs_addLog: "length (eventLogs (addLog ty msg cam s)) \<le> 100"
  by (simp add: addLog_def)

lemma stopPing_frame [simp]:
  "messageHandlers (stopPing s) = messageHandlers s"
  "promises (stopPing s) = promises s"
  "timers (stopPing s) = timers s"
  "nextTimer (stopPing s) = nextTimer s"
  "nextPromise (stopPing s) = nextPromise s"
  "reconnectAttempts (stopPing s) = reconnectAttempts s"
  "reconnectTimeout (stopPing s) = reconnectTimeout s"
  "connectionError (stopPing s) = connectionError s"
  "pingInterval (stopPing s) = False"
  "delivered (stopPing s) = delivered s"
  "ws (stopPing s) = ws s"
  "sockets (stopPing s) = sockets s"
  "closeCalls (stopPing s) = closeCalls s"
  "now (stopPing s) = now s"
  "urlValid (stopPing s) = urlValid s"
  by (simp_all add: stopPing_def)

lemma startPing_frame [simp]:
  "messageHandlers (startPing s) = messageHandlers s"
  "promises (startPing s) = promises s"
  "timers (startPing s) = timers s"
  "nextTimer (startPing s) = nextTimer s"
  "nextPromise (startPing s) = nextPromise s"
  "reconnectAttempts (startPing s) = reconnectAttempts s"
  "reconnectTimeout (startPing s) = reconnectTimeout s"
  "connectionError (startPing s) = connectionError s"
  "pingInterval (startPing s) = True"
  "delivered (startPing s) = delivered s"
  "ws (startPing s) = ws s"
  "sockets (startPing s) = sockets s"
  "now (startPing s) = now s"
  "urlValid (startPing s) = urlValid s"
  by (simp_all add: startPing_def)

lemma setTimeout_frame [simp]:
  "messageHandlers (setTimeout t s) = messageHandlers s"
  "promises (setTimeout t s) = promises s"
  "timers (setTimeout t s) = (timers s)(nextTimer s \<mapsto> t)"
  "nextTimer (setTimeout t s) = Suc (nextTimer s)"
  "nextPromise (setTimeout t s) = nextPromise s"
  "reconnectAttempts (setTimeout t s) = reconnectAttempts s"
  "connectionError (setTimeout t s) = connectionError s"
  "pingInterval (setTimeout t s) = pingInterval s"
  "delivered (setTimeout t s) = delivered s"
  "now (setTimeout t s) = now s"
  "ws (setTimeout t s) = ws s"
  "sockets (setTimeout t s) = sockets s"
  "urlValid (setTimeout t s) = urlValid s"
  by (simp_all add: setTimeout_def)

lemma clearTimeout_frame [simp]:
  "messageHandlers (clearTimeout tid s) = messageHandlers s"
  "promises (clearTimeout tid s) = promises s"
  "timers (clearTimeout tid s) = (timers s)(tid := None)"
  "nextTimer (clearTimeout tid s) = nextTimer s"
  "nextPromise (clearTimeout tid s) = nextPromise s"
  "reconnectAttempts (clearTimeout tid s) = reconnectAttempts s"
  "reconnectTimeout (clearTimeout tid s) = reconnectTimeout s"
  "connectionError (clearTimeout tid s) = connectionError s"
  "pingInterval (clearTimeout tid s) = pingInterval s"
  "delivered (clearTimeout tid s) = delivered s"
  "now (clearTimeout tid s) = now s"
  "ws (clearTimeout tid s) = ws s"
  "sockets (clearTimeout tid s) = sockets s"
  "closeCalls (clearTimeout tid s) = closeCalls s"
  "urlValid (clearTimeout tid s) = urlValid s"
  by (simp_all add: clearTimeout_def)

lemma settle_frame [simp]:
  "messageHandlers (settle p v s) = messageHandlers s"
  "timers (settle p v s) = timers s"
  "nextTimer (settle p v s) = nextTimer s"
  "nextPromise (settle p v s) = nextPromise s"
  "reconnectAttempts (settle p v s) = reconnectAttempts s"
  "delivered (settle p v s) = delivered s"
  "now (settle p v s) = now s"
  "ws (settle p v s) = ws s"
  "sockets (settle p v s) = sockets s"
  by (simp_all add: settle_def)

lemma promises_settle:
  "promises (settle p v s) = (if promises s p = Some Pending then (promises s)(p \<mapsto> v) else promises s)"
  by (simp add: settle_def)

lemma eventLogs_basic [simp]:
  "eventLogs (settle p v s) = eventLogs s"
  "eventLogs (setTimeout t s) = eventLogs s"
  "eventLogs (clearTimeout tid s) = eventLogs s"
  "eventLogs (startPing s) = eventLogs s"
  "eventLogs (stopPing s) = eventLogs s"
  "eventLogs (closeSocket sid c r s) = eventLogs s"
  "eventLogs (pingTick s) = eventLogs s"
  "eventLogs (subscribe mt c s) = eventLogs s"
  "eventLogs (unsubscribe mt s) = eventLogs s"
  "eventLogs (invoke h d s) = eventLogs s"
  by (simp_all add: settle_def setTimeout_def clearTimeout_def startPing_def stopPing_def
        closeSocket_def pingTick_def subscribe_def unsubscribe_def invoke_def
        split: option.splits handler.splits)

lemma connect_frame [simp]:
  "messageHandlers (connect s) = messageHandlers s"
  "promises (connect s) = promises s"
  "timers (connect s) = timers s"
  "nextTimer (connect s) = nextTimer s"
  "nextPromise (connect s) = nextPromise s"
  "reconnectAttempts (connect s) = reconnectAttempts s"
  "reconnectTimeout (connect s) = reconnectTimeout s"
  "delivered (connect s) = delivered s"
  "now (connect s) = now s"
  "urlValid (connect s) = urlValid s"
  by (simp_all add: connect_def Let_def)

lemma onopen_frame [simp]:
  "messageHandlers (onopen s) = messageHandlers s"
  "promises (onopen s) = promises s"
  "timers (onopen s) = timers s"
  "nextTimer (onopen s) = nextTimer s"
  "nextPromise (onopen s) = nextPromise s"
  "delivered (onopen s) = delivered s"
  "urlValid (onopen s) = urlValid s"
  by (simp_all add: onopen_def)

lemma onerror_frame [simp]:
  "messageHandlers (onerror s) = messageHandlers s"
  "promises (onerror s) = promises s"
  "timers (onerror s) = timers s"
  "nextTimer (onerror s) = nextTimer s"
  "nextPromise (onerror s) = nextPromise s"
  "reconnectAttempts (onerror s) = reconnectAttempts s"
  "delivered (onerror s) = delivered s"
  "urlValid (onerror s) = urlValid s"
  by (simp_all add: onerror_def)

lemma pingTick_frame [simp]:
  "messageHandlers (pingTick s) = messageHandlers s"
  "promises (pingTick s) = promises s"
  "timers (pingTick s) = timers s"
  "nextTimer (pingTick s) = nextTimer s"
  "nextPromise (pingTick s) = nextPromise s"
  "reconnectAttempts (pingTick s) = reconnectAttempts s"
  "delivered (pingTick s) = delivered s"
  "urlValid (pingTick s) = urlValid s"
  by (simp_all add: pingTick_def split: option.splits)

lemma onclose_frame [simp]:
  "messageHandlers (onclose c r s) = messageHandlers s"
  "promises (onclose c r s) = promises s"
  "nextPromise (onclose c r s) = nextPromise s"
  "reconnectAttempts (onclose c r s) = reconnectAttempts s"
  "delivered (onclose c r s) = delivered s"
  "pingInterval (onclose c r s) = False"
  "now (onclose c r s) = now s"
  "urlValid (onclose c r s) = urlValid s"
  by (simp_all add: onclose_def Let_def)

lemma timers_onclose:
  "timers (onclose c r s) =
     (if c \<noteq> 1000 \<and> reconnectAttempts s < 5
      then (timers s)(nextTimer s \<mapsto> ReconnectTimer (now s + 2 ^ reconnectAttempts s * 1000))
      else timers s)"
  by (simp add: onclose_def Let_def maxReconnectAttempts_def)

lemma reconnectTimeout_onclose:
  "reconnectTimeout (onclose c r s) =
     (if c \<noteq> 1000 \<and> reconnectAttempts s < 5 then Some (nextTimer s) else reconnectTimeout s)"
  by (simp add: onclose_def Let_def maxReconnectAttempts_def)

lemma nextTimer_onclose:
  "nextTimer (onclose c r s) =
     (if c \<noteq> 1000 \<and> reconnectAttempts s < 5 then Suc (nextTimer s) else nextTimer s)"
  by (simp add: onclose_def Let_def maxReconnectAttempts_def)

lemma connectionError_onclose:
  "connectionError (onclose c r s) =
     (if c \<noteq> 1000 \<and> reconnectAttempts s < 5 then connectionError s
      else if 5 \<le> reconnectAttempts s then Some ''Maximum reconnection attempts reached''
      else connectionError s)"
  by (simp add: onclose_def Let_def maxReconnectAttempts_def)

lemma disconnect_frame [simp]:
  "messageHandlers (disconnect s) = messageHandlers s"
  "promises (disconnect s) = promises s"
  "nextTimer (disconnect s) = nextTimer s"
  "nextPromise (disconnect s) = nextPromise s"
  "reconnectAttempts (disconnect s) = 0"
  "pingInterval (disconnect s) = False"
  "delivered (disconnect s) = delivered s"
  "ws (disconnect s) = None"
  "now (disconnect s) = now s"
  "urlValid (disconnect s) = urlValid s"
  by (simp_all add: disconnect_def Let_def closeSocket_def split: option.splits)

lemma timers_disconnect:
  "timers (disconnect s) =
     (case reconnectTimeout s of None \<Rightarrow> timers s | Some tid \<Rightarrow> (timers s)(tid := None))"
  by (simp add: disconnect_def Let_def closeSocket_def split: option.splits)

lemma closeCalls_disconnect:
  "closeCalls (disconnect s) =
     (case ws s of None \<Rightarrow> closeCalls s
      | Some sid \<Rightarrow> closeCalls s @ [(sid, 1000, ''User disconnect'')])"
  by (simp add: disconnect_def Let_def closeSocket_def split: option.splits)

lemma fst_sendMessage: "fst (sendMessage m s) = nextPromise s"
  by (simp add: sendMessage_def Let_def)

lemma wsOpen_fresh_promise [simp]:
  "wsOpen (s\<lparr>promises := ps, nextPromise := n\<rparr>) = wsOpen s"
  by (simp add: wsOpen_def split: option.splits)

lemma messageHandlers_sendMessage:
  "messageHandlers (snd (sendMessage m s)) =
     (case waiterKey m s of
        None \<Rightarrow> messageHandlers s
      | Some k \<Rightarrow> (messageHandlers s)(k \<mapsto> OneShot (nextPromise s) k))"
  by (simp add: sendMessage_def waiterKey_def Let_def split: option.splits)

lemma timers_sendMessage:
  "timers (snd (sendMessage m s)) =
     (case waiterKey m s of
        None \<Rightarrow> timers s
      | Some k \<Rightarrow> (timers s)(nextTimer s \<mapsto> RequestTimer (nextPromise s) k (now s + 10000)))"
  by (simp add: sendMessage_def waiterKey_def Let_def split: option.splits)

lemma nextTimer_sendMessage:
  "nextTimer (snd (sendMessage m s)) =
     (case waiterKey m s of None \<Rightarrow> nextTimer s | Some k \<Rightarrow> Suc (nextTimer s))"
  by (simp add: sendMessage_def waiterKey_def Let_def split: option.splits)

lemma nextPromise_sendMessage: "nextPromise (snd (sendMessage m s)) = Suc (nextPromise s)"
  by (simp add: sendMessage_def Let_def split: option.splits)

lemma promises_sendMessage:
  "promises (snd (sendMessage m s)) =
     (promises s)(nextPromise s \<mapsto>
        (if \<not> wsOpen s then Rejected NotConnected
         else if \<not> serializable m then Rejected SendFailed
         else (case waiterKey m s of None \<Rightarrow> Resolved Ack | Some k \<Rightarrow> Pending)))"
  by (simp add: sendMessage_def waiterKey_def Let_def promises_settle split: option.splits)

lemma delivered_sendMessage: "delivered (snd (sendMessage m s)) = delivered s"
  by (simp add: sendMessage_def Let_def split: option.splits)

lemma logFrame_frame:
  assumes "logFrame d s = Some s1"
  shows "messageHandlers s1 = messageHandlers s" "promises s1 = promises s"
    "timers s1 = timers s" "nextTimer s1 = nextTimer s" "nextPromise s1 = nextPromise s"
    "delivered s1 = delivered s" "reconnectAttempts s1 = reconnectAttempts s"
  using assms by (auto simp: logFrame_def Let_def split: if_splits option.splits)

lemma invoke_frame [simp]:
  "timers (invoke h d s) = timers s"
  "nextTimer (invoke h d s) = nextTimer s"
  "nextPromise (invoke h d s) = nextPromise s"
  "reconnectAttempts (invoke h d s) = reconnectAttempts s"
  by (simp_all add: invoke_def split: handler.splits)

lemma messageHandlers_invoke:
  "messageHandlers (invoke h d s) =
     (case h of OneShot p k \<Rightarrow> (messageHandlers s)(k := None) | Subscriber c \<Rightarrow> messageHandlers s)"
  by (simp add: invoke_def split: handler.splits)

lemma promises_invoke:
  "promises (invoke h d s) =
     (case h of
        OneShot p k \<Rightarrow>
          (if promises s p = Some Pending then (promises s)(p \<mapsto> Resolved (Payload d))
           else promises s)
      | Subscriber c \<Rightarrow> promises s)"
  by (simp add: invoke_def promises_settle split: handler.splits)

lemma onmessage_frame [simp]:
  "timers (onmessage f s) = timers s"
  "nextTimer (onmessage f s) = nextTimer s"
  "nextPromise (onmessage f s) = nextPromise s"
  "reconnectAttempts (onmessage f s) = reconnectAttempts s"
  by (auto simp: onmessage_def logFrame_frame split: frame.splits option.splits)

lemma onmessage_cases:
  obtains s1 where "messageHandlers s1 = messageHandlers s" "promises s1 = promises s"
      "nextPromise s1 = nextPromise s" "onmessage f s = s1" "timers s1 = timers s"
  | s1 d t h where "messageHandlers s1 = messageHandlers s" "promises s1 = promises s"
      "nextPromise s1 = nextPromise s" "messageHandlers s (Tag t) = Some h"
      "onmessage f s = invoke h d s1" "timers s1 = timers s"
proof (cases f)
  case Unparseable
  then have "onmessage f s = addLog Error ''Failed to parse server message'' None s"
    by (simp add: onmessage_def)
  then show ?thesis using that(1) [of "onmessage f s"] by simp
next
  case (Parsed d)
  show ?thesis
  proof (cases "is_pong d")
    case True
    then have "onmessage f s = s" by (simp add: Parsed onmessage_def)
    then show ?thesis using that(1) [of s] by simp
  next
    case False
    show ?thesis
    proof (cases "logFrame d s")
      case None
      then have "onmessage f s = addLog Error ''Failed to parse server message'' None s"
        using False by (simp add: Parsed onmessage_def)
      then show ?thesis using that(1) [of "onmessage f s"] by simp
    next
      case (Some s1)
      note fr = logFrame_frame [OF Some]
      show ?thesis
      proof (cases "mtype d")
        case None
        then have "onmessage f s = s1" using False Some by (simp add: Parsed onmessage_def)
        then show ?thesis using that(1) [of s1] fr by simp
      next
        case t: (Some t)
        show ?thesis
        proof (cases "messageHandlers s (Tag t)")
          case None
          then have "onmessage f s = s1"
            using False Some t fr(1) by (simp add: Parsed onmessage_def)
          then show ?thesis using that(1) [of s1] fr by simp
        next
          case h: (Some h)
          then have "onmessage f s = invoke h d s1"
            using False Some t fr(1) by (simp add: Parsed onmessage_def)
          then show ?thesis using that(2) [of s1 t h d] fr h by simp
        qed
      qed
    qed
  qed
qed

lemma subscribe_frame [simp]:
  "timers (subscribe t c s) = timers s"
  "nextTimer (subscribe t c s) = nextTimer s"
  "nextPromise (subscribe t c s) = nextPromise s"
  "promises (subscribe t c s) = promises s"
  "timers (unsubscribe t s) = timers s"
  "nextTimer (unsubscribe t s) = nextTimer s"
  "nextPromise (unsubscribe t s) = nextPromise s"
  "promises (unsubscribe t s) = promises s"
  by (simp_all add: subscribe_def unsubscribe_def)

lemma fireTimer_frame [simp]:
  "nextTimer (fireTimer tid s) = nextTimer s"
  "nextPromise (fireTimer tid s) = nextPromise s"
  by (simp_all add: fireTimer_def Let_def split: option.splits timer.splits)

lemma timers_fireTimer: "timers (fireTimer tid s) = (timers s)(tid := None)"
  by (auto simp: fireTimer_def Let_def split: option.splits timer.splits)

lemma promises_fireTimer:
  "promises (fireTimer tid s) =
     (case timers s tid of
        Some (RequestTimer p k d) \<Rightarrow>
          (if messageHandlers s k \<noteq> None \<and> promises s p = Some Pending
           then (promises s)(p \<mapsto> Rejected RequestTimeout) else promises s)
      | _ \<Rightarrow> promises s)"
  by (simp add: fireTimer_def Let_def promises_settle split: option.splits timer.splits)

lemma messageHandlers_fireTimer:
  "messageHandlers (fireTimer tid s) =
     (case timers s tid of
        Some (RequestTimer p k d) \<Rightarrow> (messageHandlers s)(k := None)
      | _ \<Rightarrow> messageHandlers s)"
  by (auto simp: fireTimer_def Let_def split: option.splits timer.splits)

lemma run_append: "run (es @ fs) s = run fs (run es s)"
  by (induction es arbitrary: s) simp_all

section \<open>Invariants of the reachable states\<close>

lemma timersFresh_step: "timersFresh s \<Longrightarrow> timersFresh (step e s)"
  by (cases e)
     (auto simp: timersFresh_def step_def timers_sendMessage nextTimer_sendMessage
        timers_onclose nextTimer_onclose timers_disconnect timers_fireTimer
        split: option.splits)

lemma timersFresh_run: "timersFresh s \<Longrightarrow> timersFresh (run es s)"
  by (induction es arbitrary: s) (simp_all add: timersFresh_step)

lemma timersFresh_init: "timersFresh (init ok)"
  by (simp add: timersFresh_def init_def)

lemma timersFresh_reachable: "timersFresh (run es (init ok))"
  by (rule timersFresh_run) (rule timersFresh_init)

lemma promisesFresh_step: "promisesFresh s \<Longrightarrow> promisesFresh (step e s)"
proof (cases e)
  case (CallSend m)
  assume "promisesFresh s"
  then show ?thesis
    by (simp add: CallSend step_def promisesFresh_def promises_sendMessage
          nextPromise_sendMessage)
next
  case (SockMessage sid f)
  assume ok: "promisesFresh s"
  have "promisesFresh (onmessage f s)"
  proof (cases rule: onmessage_cases [where s = s and f = f])
    case (1 s1)
    then show ?thesis using ok by (auto simp: promisesFresh_def)
  next
    case (2 s1 d t h)
    then show ?thesis using ok
      by (cases h) (auto simp: promisesFresh_def promises_invoke)
  qed
  then show ?thesis using ok by (simp add: SockMessage step_def)
next
  case (FireTimer tid)
  assume "promisesFresh s"
  then show ?thesis
    by (auto simp: FireTimer step_def promisesFresh_def promises_fireTimer
          split: option.splits timer.splits)
qed (auto simp: step_def promisesFresh_def)

lemma promisesFresh_run: "promisesFresh s \<Longrightarrow> promisesFresh (run es s)"
  by (induction es arbitrary: s) (simp_all add: promisesFresh_step)

lemma promisesFresh_reachable: "promisesFresh (run es (init ok))"
  by (rule promisesFresh_run) (simp add: promisesFresh_def init_def)


















lemma settledAs_same:
  "settledAs p v s \<Longrightarrow> promises s' = promises s \<Longrightarrow> nextPromise s' = nextPromise s \<Longrightarrow>
   settledAs p v s'"
  by (simp add: settledAs_def promisesFresh_def)

lemma settledAs_settle: "settledAs p v s \<Longrightarrow> settledAs p v (settle q w s)"
  by (auto simp: settledAs_def promisesFresh_def promises_settle)

lemma settledAs_invoke: "settledAs p v s \<Longrightarrow> settledAs p v (invoke h d s)"
  by (cases h) (auto simp: settledAs_def promisesFresh_def promises_invoke)

lemma settledAs_onmessage: "settledAs p v s \<Longrightarrow> settledAs p v (onmessage f s)"
proof -
  assume u: "settledAs p v s"
  show ?thesis
  proof (cases rule: onmessage_cases [where s = s and f = f])
    case (1 s1)
    then show ?thesis using u by (auto intro: settledAs_same)
  next
    case (2 s1 d t h)
    have "settledAs p v s1" using u 2(2,3) by (rule settledAs_same)
    then show ?thesis using 2(5) by (simp add: settledAs_invoke)
  qed
qed

lemma settledAs_fireTimer: "settledAs p v s \<Longrightarrow> settledAs p v (fireTimer tid s)"
  by (auto simp: settledAs_def promisesFresh_def promises_fireTimer
        split: option.splits timer.splits)

lemma settledAs_send: "settledAs p v s \<Longrightarrow> settledAs p v (snd (sendMessage m s))"
  by (auto simp: settledAs_def promisesFresh_def promises_sendMessage nextPromise_sendMessage)

lemma settledAs_step: "settledAs p v s \<Longrightarrow> settledAs p v (step e s)"
proof (cases e)
  case (CallSend m)
  assume "settledAs p v s"
  then show ?thesis by (simp add: CallSend step_def settledAs_send)
next
  case (SockMessage sid f)
  assume "settledAs p v s"
  then show ?thesis by (simp add: SockMessage step_def settledAs_onmessage)
next
  case (FireTimer tid)
  assume "settledAs p v s"
  then show ?thesis by (simp add: FireTimer step_def settledAs_fireTimer)
qed (auto simp: step_def settledAs_def promisesFresh_def)

lemma settledAs_run: "settledAs p v s \<Longrightarrow> settledAs p v (run es s)"
  by (induction es arbitrary: s) (simp_all add: settledAs_step)

lemma stranded_same:
  "stranded p s \<Longrightarrow> messageHandlers s' = messageHandlers s \<Longrightarrow> promises s' = promises s \<Longrightarrow>
   nextPromise s' = nextPromise s \<Longrightarrow> timers s' = timers s \<Longrightarrow> stranded p s'"
  unfolding stranded_def by simp

lemma stranded_invoke:
  "stranded p s \<Longrightarrow> messageHandlers s k = Some h \<Longrightarrow> stranded p (invoke h d s)"
  unfolding stranded_def
  by (cases h) (auto simp: messageHandlers_invoke promises_invoke)

lemma stranded_onmessage: "stranded p s \<Longrightarrow> stranded p (onmessage f s)"
proof -
  assume u: "stranded p s"
  show ?thesis
  proof (cases rule: onmessage_cases [where s = s and f = f])
    case (1 s1)
    then show ?thesis using u by (auto intro: stranded_same)
  next
    case (2 s1 d t h)
    have "stranded p s1" using u 2(1-3,6) by (rule stranded_same)
    moreover have "messageHandlers s1 (Tag t) = Some h" using 2(1,4) by simp
    ultimately have "stranded p (invoke h d s1)" by (rule stranded_invoke)
    then show ?thesis using 2(5) by simp
  qed
qed

lemma stranded_fireTimer: "stranded p s \<Longrightarrow> stranded p (fireTimer tid s)"
  unfolding stranded_def
  by (auto simp: promises_fireTimer messageHandlers_fireTimer timers_fireTimer
        split: option.splits timer.splits)

lemma stranded_send: "stranded p s \<Longrightarrow> stranded p (snd (sendMessage m s))"
  unfolding stranded_def
  by (auto simp: messageHandlers_sendMessage promises_sendMessage nextPromise_sendMessage
        timers_sendMessage split: option.splits)

lemma stranded_step: "stranded p s \<Longrightarrow> stranded p (step e s)"
proof (cases e)
  case (CallSend m)
  assume "stranded p s"
  then show ?thesis by (simp add: CallSend step_def stranded_send)
next
  case (SockMessage sid f)
  assume "stranded p s"
  then show ?thesis by (simp add: SockMessage step_def stranded_onmessage)
next
  case (FireTimer tid)
  assume "stranded p s"
  then show ?thesis by (simp add: FireTimer step_def stranded_fireTimer)
next
  case CallDisconnect
  assume "stranded p s"
  then show ?thesis
    by (auto simp: CallDisconnect step_def stranded_def timers_disconnect split: option.splits)
next
  case (SockClose sid c r)
  assume "stranded p s"
  then show ?thesis
    by (auto simp: SockClose step_def stranded_def timers_onclose)
qed (auto simp: step_def stranded_def subscribe_def unsubscribe_def)

lemma stranded_run: "stranded p s \<Longrightarrow> stranded p (run es s)"
  by (induction es arbitrary: s) (simp_all add: stranded_step)

lemma stranded_forever: "stranded p s \<Longrightarrow> promises (run es s) p = Some Pending"
  using stranded_run [of p s es] by (simp add: stranded_def)

















section \<open>The event log is bounded and newest first\<close>

lemma take_append_take: "take n (xs @ take n ys) = take n (xs @ ys)"
  by (simp add: min_def)

lemma eventLogs_appends:
  "length (eventLogs s) \<le> 100 \<Longrightarrow>
   eventLogs (run (map append_call as) s) = take 100 (rev (map (newLog (now s)) as) @ eventLogs s)"
proof (induction as arbitrary: s)
  case Nil
  then show ?case by simp
next
  case (Cons a as)
  obtain ty msg cam where a: "a = (ty, msg, cam)" by (cases a)
  let ?s' = "addLog ty msg cam s"
  have r: "run (map append_call (a # as)) s = run (map append_call as) ?s'"
    by (simp add: a append_call_def step_def)
  have le: "length (eventLogs ?s') \<le> 100" by (rule length_eventLogs_addLog)
  have "eventLogs (run (map append_call (a # as)) s)
      = take 100 (rev (map (newLog (now ?s')) as) @ eventLogs ?s')"
    unfolding r using le by (rule Cons.IH)
  also have "\<dots> = take 100 (rev (map (newLog (now s)) as) @
                 take 100 (newLog (now s) a # eventLogs s))"
    by (simp only: now_addLog eventLogs_addLog a)
  also have "\<dots> = take 100 (rev (map (newLog (now s)) as) @ (newLog (now s) a # eventLogs s))"
    by (rule take_append_take)
  finally show ?case by simp
qed

lemma logOk_connect: "logOk s \<Longrightarrow> logOk (connect s)"
  by (simp add: connect_def Let_def logOk_def length_eventLogs_addLog)

lemma logOk_disconnect: "logOk (disconnect s)"
  by (simp add: disconnect_def Let_def logOk_def length_eventLogs_addLog)

lemma logOk_onopen: "logOk (onopen s)"
  by (simp add: onopen_def logOk_def length_eventLogs_addLog)

lemma logOk_onerror: "logOk (onerror s)"
  by (simp add: onerror_def logOk_def length_eventLogs_addLog)

lemma logOk_onclose: "logOk (onclose c r s)"
  by (simp add: onclose_def Let_def logOk_def length_eventLogs_addLog)

lemma logOk_logFrame: "logOk s \<Longrightarrow> logFrame d s = Some s' \<Longrightarrow> logOk s'"
  by (auto simp: logFrame_def Let_def logOk_def length_eventLogs_addLog
        split: if_splits option.splits)

lemma logOk_onmessage: "logOk s \<Longrightarrow> logOk (onmessage f s)"
proof (cases f)
  case Unparseable
  then show ?thesis by (simp add: onmessage_def logOk_def length_eventLogs_addLog)
next
  case (Parsed d)
  assume ok: "logOk s"
  show ?thesis
  proof (cases "logFrame d s")
    case None
    then show ?thesis
      using ok by (simp add: Parsed onmessage_def logOk_def length_eventLogs_addLog)
  next
    case (Some s1)
    then have "logOk s1" using ok by (rule logOk_logFrame [rotated])
    then show ?thesis
      using ok Some by (simp add: Parsed onmessage_def logOk_def split: option.splits)
  qed
qed

lemma logOk_sendMessage: "logOk s \<Longrightarrow> logOk (snd (sendMessage m s))"
  by (simp add: sendMessage_def Let_def logOk_def split: option.splits)

lemma logOk_fireTimer: "logOk s \<Longrightarrow> logOk (fireTimer tid s)"
proof (cases "timers s tid")
  case None
  assume "logOk s"
  then show ?thesis by (simp add: fireTimer_def None)
next
  case (Some t)
  assume ok: "logOk s"
  show ?thesis
  proof (cases t)
    case (RequestTimer p k d)
    then show ?thesis using ok Some by (simp add: fireTimer_def Let_def logOk_def)
  next
    case (ReconnectTimer d)
    have "logOk (connect (clearTimeout tid s
            \<lparr>reconnectAttempts := Suc (reconnectAttempts (clearTimeout tid s))\<rparr>))"
      by (rule logOk_connect) (use ok in \<open>simp add: logOk_def\<close>)
    then show ?thesis using Some ReconnectTimer by (simp add: fireTimer_def Let_def)
  qed
qed

lemma logOk_step: "logOk s \<Longrightarrow> logOk (step e s)"
proof (cases e)
  case (SockOpen sid)
  assume "logOk s"
  then show ?thesis by (simp add: SockOpen step_def logOk_onopen)
next
  case (SockClose sid c r)
  assume "logOk s"
  then show ?thesis by (simp add: SockClose step_def logOk_onclose)
qed (simp_all add: step_def logOk_connect logOk_disconnect logOk_sendMessage
        logOk_onmessage logOk_onerror logOk_fireTimer,
     simp_all add: logOk_def length_eventLogs_addLog)

lemma logOk_run: "logOk s \<Longrightarrow> logOk (run es s)"
  by (induction es arbitrary: s) (simp_all add: logOk_step)

lemma take_rev_upt: "take 100 (rev (map f [0 ..< 150])) = map f (rev [50 ..< 150])"
proof -
  have "take 100 (rev (map f [0 ..< 150])) = rev (drop 50 (map f [0 ..< 150]))"
    by (simp add: take_rev)
  also have "drop 50 (map f [0 ..< 150]) = map f [50 ..< 150]"
    by (simp add: drop_map)
  finally show ?thesis by (simp add: rev_map)
qed

text \<open>
  Claim C9. Starting from an empty log, any sequence of \<open>addLog\<close> calls leaves the
  entries of the calls newest first, cut to the 100 most recent: the log's length is
  the smaller of the number of calls and 100. Whatever the hook does afterwards (any
  calls, socket events and timers), the log never holds more than 100 entries.
\<close>

theorem eventLog_bounded_newest_first:
  assumes "eventLogs s = []"
  shows "eventLogs (run (map append_call as) s) = take 100 (rev (map (newLog (now s)) as))
       \<and> length (eventLogs (run (map append_call as) s)) = min (length as) 100
       \<and> length (eventLogs (run es (run (map append_call as) s))) \<le> 100"
proof -
  have 1: "eventLogs (run (map append_call as) s) = take 100 (rev (map (newLog (now s)) as))"
    using eventLogs_appends [of s as] assms by simp
  have 2: "length (eventLogs (run (map append_call as) s)) = min (length as) 100"
    by (simp add: 1)
  have "logOk (run (map append_call as) s)"
    by (simp add: logOk_def 2)
  then have "logOk (run es (run (map append_call as) s))"
    by (rule logOk_run)
  then show ?thesis using 1 2 by (simp add: logOk_def)
qed

text \<open>
  After 150 appends the log holds the entries numbered 149 down to 50.
\<close>

theorem eventLog_bounded_newest_first_witness:
  "eventLogs (init True) = []
   \<and> eventLogs (run (map append_call (map numbered [0 ..< 150])) (init True))
       = map (newLog 0) (map numbered (rev [50 ..< 150]))
   \<and> length (eventLogs (run (map append_call (map numbered [0 ..< 150])) (init True))) = 100"
proof -
  have e: "eventLogs (init True) = []" and n: "now (init True) = 0"
    by (simp_all add: init_def)
  have t: "take 100 (rev (map (newLog 0) (map numbered [0 ..< 150])))
         = map (newLog 0) (map numbered (rev [50 ..< 150]))"
    unfolding map_map by (rule take_rev_upt)
  show ?thesis
    using eventLog_bounded_newest_first [OF e, of "map numbered [0 ..< 150]" "[]"]
    unfolding n t by (simp add: e)
qed

section \<open>Heartbeat acknowledgments\<close>

text \<open>
  Claim C8. A frame whose \<open>type\<close> or \<open>command\<close> is \<open>pong\<close> changes nothing: the
  message callback returns before it writes a log entry and before it looks up a
  handler, so the event log and the record of handler calls stay as they were. A run
  of the hook ends in the same state with the frame or without it.
\<close>

theorem pong_is_dropped:
  assumes "mtype d = Some ''pong'' \<or> mcommand d = Some ''pong''"
  shows "step (SockMessage sid (Parsed d)) s = s
       \<and> onmessage (Parsed d) s = s
       \<and> eventLogs (onmessage (Parsed d) s) = eventLogs s
       \<and> delivered (onmessage (Parsed d) s) = delivered s
       \<and> run (es @ SockMessage sid (Parsed d) # fs) s = run (es @ fs) s"
proof -
  have m: "onmessage (Parsed d) t = t" for t
    using assms by (simp add: onmessage_def is_pong_def)
  have st: "step (SockMessage sid (Parsed d)) t = t" for t
    by (simp add: step_def m)
  have "run (es @ SockMessage sid (Parsed d) # fs) s = run (es @ fs) s"
    by (simp add: run_append st)
  then show ?thesis by (simp add: m st)
qed

text \<open>
  A \<open>pong\<close> frame arrives on an open socket while a subscriber is registered for the
  tag \<open>pong\<close>: the subscriber is not called.
\<close>

theorem pong_is_dropped_witness:
  "(mtype pong_frame = Some ''pong'' \<or> mcommand pong_frame = Some ''pong'')
   \<and> messageHandlers (subscribe ''pong'' 0 connected) (Tag ''pong'') = Some (Subscriber 0)
   \<and> sockets (subscribe ''pong'' 0 connected) 0 = Some OPEN
   \<and> step (SockMessage 0 (Parsed pong_frame)) (subscribe ''pong'' 0 connected)
       = subscribe ''pong'' 0 connected
   \<and> delivered (onmessage (Parsed pong_frame) (subscribe ''pong'' 0 connected)) = []"
proof -
  have h: "mtype pong_frame = Some ''pong'' \<or> mcommand pong_frame = Some ''pong''"
    by (simp add: pong_frame_def)
  have d: "delivered (subscribe ''pong'' 0 connected) = []"
    by (simp add: subscribe_def connected_def step_def init_def wsOpen_def)
  have m: "messageHandlers (subscribe ''pong'' 0 connected) (Tag ''pong'') = Some (Subscriber 0)"
    by (simp add: subscribe_def)
  have o: "sockets (subscribe ''pong'' 0 connected) 0 = Some OPEN"
    by (simp add: subscribe_def connected_def step_def init_def wsOpen_def connect_def onopen_def)
  show ?thesis
    using pong_is_dropped [OF h, of 0 "subscribe ''pong'' 0 connected" "[]" "[]"] h d m o
    by simp
qed

section \<open>Closing and reconnecting\<close>

text \<open>
  Claim C6. \<open>disconnect()\<close> closes the socket with code 1000, cancels the reconnect
  timer it tracks, stops the heartbeat and resets the attempt counter to 0; after it
  and the close event with code 1000 that follows, the pending timers are those that
  were pending before, without the cancelled one: no reconnect is scheduled. The close
  callback with code 1000 never adds a timer. With any other code, while the counter is
  under the maximum, it adds a reconnect timer due \<open>2 ^ attempts * 1000\<close> ms later,
  whose callback counts the attempt and calls \<open>connect()\<close>.
\<close>

theorem graceful_close_never_reconnects:
  "timers (step (SockClose sid 1000 r) (disconnect s))
     = (case reconnectTimeout s of None \<Rightarrow> timers s | Some tid \<Rightarrow> (timers s)(tid := None))
   \<and> pingInterval (disconnect s) = False
   \<and> reconnectAttempts (disconnect s) = 0
   \<and> closeCalls (disconnect s)
       = (case ws s of None \<Rightarrow> closeCalls s
          | Some cur \<Rightarrow> closeCalls s @ [(cur, 1000, ''User disconnect'')])
   \<and> timers (onclose 1000 r s) = timers s
   \<and> (c \<noteq> 1000 \<and> reconnectAttempts s < maxReconnectAttempts \<longrightarrow>
        timers (onclose c r s)
          = (timers s)(nextTimer s \<mapsto> ReconnectTimer (now s + 2 ^ reconnectAttempts s * 1000))
        \<and> reconnectTimeout (onclose c r s) = Some (nextTimer s)
        \<and> fireTimer (nextTimer s) (onclose c r s)
            = connect ((clearTimeout (nextTimer s) (onclose c r s))
                \<lparr> reconnectAttempts := Suc (reconnectAttempts s) \<rparr>))"
proof -
  have 1: "timers (step (SockClose sid 1000 r) (disconnect s))
     = (case reconnectTimeout s of None \<Rightarrow> timers s | Some tid \<Rightarrow> (timers s)(tid := None))"
    by (simp add: step_def timers_onclose timers_disconnect)
  have 2: "closeCalls (disconnect s)
       = (case ws s of None \<Rightarrow> closeCalls s
          | Some cur \<Rightarrow> closeCalls s @ [(cur, 1000, ''User disconnect'')])"
    by (rule closeCalls_disconnect)
  have 3: "timers (onclose 1000 r s) = timers s"
    by (simp add: timers_onclose)
  have 4: "fireTimer (nextTimer s) (onclose c r s)
            = connect ((clearTimeout (nextTimer s) (onclose c r s))
                \<lparr> reconnectAttempts := Suc (reconnectAttempts s) \<rparr>)"
    if "c \<noteq> 1000" "reconnectAttempts s < maxReconnectAttempts"
    using that by (simp add: fireTimer_def timers_onclose maxReconnectAttempts_def)
  show ?thesis
    using 1 2 3 4
    by (simp add: timers_onclose reconnectTimeout_onclose maxReconnectAttempts_def)
qed

text \<open>
  On the connected hook: a close with code 1006 schedules a reconnect in 1000 ms;
  \<open>disconnect()\<close> and its close event leave no timer.
\<close>

theorem graceful_close_never_reconnects_witness:
  "(1006 \<noteq> (1000 :: nat) \<and> reconnectAttempts connected < maxReconnectAttempts)
   \<and> timers (onclose 1006 [] connected) 0 = Some (ReconnectTimer 1000)
   \<and> timers (step (SockClose 0 1000 ''User disconnect'') (disconnect connected)) 0 = None
   \<and> closeCalls (disconnect connected) = [(0, 1000, ''User disconnect'')]"
proof -
  have a: "reconnectAttempts connected = 0" "nextTimer connected = 0" "now connected = 0"
    "timers connected = Map.empty" "reconnectTimeout connected = None" "ws connected = Some 0"
    "closeCalls connected = []"
    by (simp_all add: scenarios hook_defs)
  show ?thesis
    using graceful_close_never_reconnects [of 0 "''User disconnect''" connected 1006]
      graceful_close_never_reconnects [of 0 "[]" connected 1006]
    by (simp add: a maxReconnectAttempts_def)
qed

lemma retry_under_cap:
  assumes "c \<noteq> 1000" "reconnectAttempts s < 5"
  shows "reconnectAttempts (retry c r s) = Suc (reconnectAttempts s)"
    and "trackedFired (retry c r s)"
  using assms
  by (simp_all add: retry_def Let_def reconnectTimeout_onclose fireTimer_def timers_onclose
        trackedFired_def)

lemma retry_at_cap:
  assumes "5 \<le> reconnectAttempts s" "trackedFired s"
  shows "retry c r s = onclose c r s"
    and "reconnectAttempts (retry c r s) = reconnectAttempts s"
    and "trackedFired (retry c r s)"
    and "timers (retry c r s) = timers s"
  using assms
  by (simp_all add: retry_def Let_def reconnectTimeout_onclose fireTimer_def timers_onclose
        trackedFired_def split: option.splits)

lemma retries_attempts:
  "abnormal crs \<Longrightarrow> trackedFired s \<Longrightarrow> reconnectAttempts s \<le> 5 \<Longrightarrow>
   reconnectAttempts (retries crs s) = min 5 (reconnectAttempts s + length crs)
   \<and> trackedFired (retries crs s)"
proof (induction crs arbitrary: s)
  case Nil
  then show ?case by simp
next
  case (Cons cr crs)
  from Cons.prems have c: "fst cr \<noteq> 1000" and rest: "abnormal crs"
    by (simp_all add: abnormal_def)
  show ?case
  proof (cases "reconnectAttempts s < 5")
    case True
    have "reconnectAttempts (retry (fst cr) (snd cr) s) = Suc (reconnectAttempts s)"
      and "trackedFired (retry (fst cr) (snd cr) s)"
      using c True by (rule retry_under_cap)+
    then show ?thesis using Cons.IH [OF rest, of "retry (fst cr) (snd cr) s"] True by simp
  next
    case False
    then have five: "5 \<le> reconnectAttempts s" by simp
    have "reconnectAttempts (retry (fst cr) (snd cr) s) = reconnectAttempts s"
      and "trackedFired (retry (fst cr) (snd cr) s)"
      using five Cons.prems(2) by (rule retry_at_cap)+
    then show ?thesis
      using Cons.IH [OF rest, of "retry (fst cr) (snd cr) s"] Cons.prems(3) five by simp
  qed
qed

lemma retries_from_zero:
  assumes "reconnectAttempts s = 0" "abnormal crs"
  shows "reconnectAttempts (retries crs s) = min 5 (length crs)"
proof (cases crs)
  case Nil
  then show ?thesis using assms by simp
next
  case (Cons cr rest)
  from assms Cons have c: "fst cr \<noteq> 1000" and r: "abnormal rest"
    by (simp_all add: abnormal_def)
  have lt: "reconnectAttempts s < 5" using assms by simp
  have "reconnectAttempts (retry (fst cr) (snd cr) s) = Suc (reconnectAttempts s)"
    and t: "trackedFired (retry (fst cr) (snd cr) s)"
    using c lt by (rule retry_under_cap)+
  then have one: "reconnectAttempts (retry (fst cr) (snd cr) s) = 1" using assms by simp
  show ?thesis
    using retries_attempts [OF r t, of ] one Cons by simp
qed

text \<open>
  Claim C7. Starting with the attempt counter at 0 (as after a successful open), after
  \<open>k\<close> rounds of abnormal close and reconnect timer the counter is \<open>min 5 k\<close>. While
  \<open>k < 5\<close>, the next abnormal close schedules the reconnect \<open>2 ^ k * 1000\<close> ms later
  and its timer raises the counter to \<open>k + 1\<close>. From \<open>k = 5\<close> on, an abnormal close
  schedules nothing, leaves the counter at 5 and sets the connection error
  \<open>Maximum reconnection attempts reached\<close>.
\<close>

theorem reconnect_backoff_capped:
  assumes "reconnectAttempts s = 0" and "abnormal crs" and "c \<noteq> 1000"
  shows "reconnectAttempts (retries crs s) = min 5 (length crs)
       \<and> (length crs < 5 \<longrightarrow>
            timers (onclose c r (retries crs s))
              = (timers (retries crs s))(nextTimer (retries crs s) \<mapsto>
                  ReconnectTimer (now (retries crs s) + 2 ^ length crs * 1000))
            \<and> reconnectAttempts (retry c r (retries crs s)) = Suc (length crs))
       \<and> (5 \<le> length crs \<longrightarrow>
            timers (onclose c r (retries crs s)) = timers (retries crs s)
            \<and> connectionError (onclose c r (retries crs s))
                = Some ''Maximum reconnection attempts reached''
            \<and> reconnectAttempts (onclose c r (retries crs s)) = 5)"
proof -
  have a: "reconnectAttempts (retries crs s) = min 5 (length crs)"
    using assms(1,2) by (rule retries_from_zero)
  have b: "reconnectAttempts (retry c r (retries crs s)) = Suc (length crs)" if "length crs < 5"
    using retry_under_cap(1) [OF assms(3), of "retries crs s" r] a that by simp
  show ?thesis
    using a b assms(3) by (simp add: timers_onclose connectionError_onclose)
qed

text \<open>
  After three failed rounds the next delay is 8000 ms; after five the error is set and
  no timer is added.
\<close>

theorem reconnect_backoff_capped_witness:
  "reconnectAttempts connected = 0
   \<and> abnormal [(1006, []), (1006, []), (1006, [])]
   \<and> abnormal [(1006, []), (1006, []), (1006, []), (1006, []), (1006, [])]
   \<and> reconnectAttempts (retries [(1006, []), (1006, []), (1006, [])] connected) = 3
   \<and> timers (onclose 1006 [] (retries [(1006, []), (1006, []), (1006, [])] connected))
         (nextTimer (retries [(1006, []), (1006, []), (1006, [])] connected))
       = Some (ReconnectTimer
           (now (retries [(1006, []), (1006, []), (1006, [])] connected) + 8000))
   \<and> reconnectAttempts
         (retries [(1006, []), (1006, []), (1006, []), (1006, []), (1006, [])] connected) = 5
   \<and> connectionError (onclose 1006 []
         (retries [(1006, []), (1006, []), (1006, []), (1006, []), (1006, [])] connected))
       = Some ''Maximum reconnection attempts reached''
   \<and> timers (onclose 1006 []
         (retries [(1006, []), (1006, []), (1006, []), (1006, []), (1006, [])] connected))
       = timers (retries [(1006, []), (1006, []), (1006, []), (1006, []), (1006, [])] connected)"
proof -
  have z: "reconnectAttempts connected = 0"
    by (simp add: scenarios hook_defs)
  have a3: "abnormal [(1006, []), (1006, []), (1006, [])]"
    and a5: "abnormal [(1006, []), (1006, []), (1006, []), (1006, []), (1006, [])]"
    by (simp_all add: abnormal_def)
  have c: "(1006 :: nat) \<noteq> 1000" by simp
  show ?thesis
    using reconnect_backoff_capped [OF z a3 c, of "[]"]
      reconnect_backoff_capped [OF z a5 c, of "[]"] z a3 a5
    by simp
qed

text \<open>
  The same on a whole trace with the clock: the delays are 1, 2, 4, 8 and 16 seconds,
  and the sixth close gives up.
\<close>

lemma backoff_trace_example:
  "timely backoff_trace (init True)
   \<and> timers (run (take 3 backoff_trace) (init True)) 0 = Some (ReconnectTimer 1000)
   \<and> timers (run (take 6 backoff_trace) (init True)) 1 = Some (ReconnectTimer 3000)
   \<and> timers (run (take 9 backoff_trace) (init True)) 2 = Some (ReconnectTimer 7000)
   \<and> timers (run (take 12 backoff_trace) (init True)) 3 = Some (ReconnectTimer 15000)
   \<and> timers (run (take 15 backoff_trace) (init True)) 4 = Some (ReconnectTimer 31000)
   \<and> reconnectAttempts (run backoff_trace (init True)) = 5
   \<and> nextTimer (run backoff_trace (init True)) = 5
   \<and> timers (run backoff_trace (init True)) 4 = None
   \<and> connectionError (run backoff_trace (init True))
       = Some ''Maximum reconnection attempts reached''"
  by (simp add: backoff_trace_def hook_defs)

section \<open>Requests in flight when the socket closes\<close>

text \<open>
  Claim C1 as stated fails. Two requests are in flight when the socket closes with
  code 1006: after the close callback both futures are still pending and both
  one-time handlers are still in the map. The hook has no connection-lost error.
\<close>

theorem close_leaves_requests_pending:
  "promises (run lost_in_flight (init True)) 0 = Some Pending
   \<and> promises (run lost_in_flight (init True)) 1 = Some Pending
   \<and> messageHandlers (run lost_in_flight (init True)) (Tag ''status'')
       = Some (OneShot 0 (Tag ''status''))
   \<and> messageHandlers (run lost_in_flight (init True)) (Tag ''shot_result'')
       = Some (OneShot 1 (Tag ''shot_result''))
   \<and> isConnected (run lost_in_flight (init True)) = False"
  by (simp add: scenarios hook_defs)

text \<open>
  Claim C1, amended. When the socket closes, with whatever code, the close callback
  rejects no request and clears no handler: it changes neither the handler map nor any
  request future, and in every state the hook can reach the request timers pending
  after it are those pending before it. So every request that is outstanding at the
  close is still pending, with its handler in the map, after the close event is
  processed.
\<close>

theorem close_keeps_outstanding_requests:
  "messageHandlers (onclose c r s) = messageHandlers s
   \<and> promises (onclose c r s) = promises s
   \<and> messageHandlers (step (SockClose sid c r) s) = messageHandlers s
   \<and> promises (step (SockClose sid c r) s) = promises s
   \<and> (timers (step (SockClose sid c r) (run es (init ok))) tid = Some (RequestTimer p k d))
       = (timers (run es (init ok)) tid = Some (RequestTimer p k d))"
proof -
  let ?s = "run es (init ok)"
  have "timersFresh ?s" by (rule timersFresh_reachable)
  then have fresh: "timers ?s (nextTimer ?s) = None"
    unfolding timersFresh_def by simp
  have "(timers (onclose c r (?s\<lparr>sockets := (sockets ?s)(sid \<mapsto> CLOSED)\<rparr>)) tid
          = Some (RequestTimer p k d))
      = (timers ?s tid = Some (RequestTimer p k d))"
    using fresh by (auto simp: timers_onclose)
  then have t: "(timers (step (SockClose sid c r) ?s) tid = Some (RequestTimer p k d))
      = (timers ?s tid = Some (RequestTimer p k d))"
    by (simp add: step_def)
  have h: "messageHandlers (step (SockClose sid c r) s) = messageHandlers s"
    and q: "promises (step (SockClose sid c r) s) = promises s"
    by (simp_all add: step_def)
  show ?thesis using t h q by simp
qed

text \<open>
  Two requests in flight, closed with code 1006: both futures, both handlers and both
  request timers are as before the close.
\<close>

theorem close_keeps_outstanding_requests_witness:
  "promises (step (SockClose 0 1006 []) (run (take 4 lost_in_flight) (init True))) 0
     = Some Pending
   \<and> promises (step (SockClose 0 1006 []) (run (take 4 lost_in_flight) (init True))) 1
     = Some Pending
   \<and> messageHandlers (step (SockClose 0 1006 []) (run (take 4 lost_in_flight) (init True)))
       (Tag ''status'') = Some (OneShot 0 (Tag ''status''))
   \<and> messageHandlers (step (SockClose 0 1006 []) (run (take 4 lost_in_flight) (init True)))
       (Tag ''shot_result'') = Some (OneShot 1 (Tag ''shot_result''))
   \<and> timers (step (SockClose 0 1006 []) (run (take 4 lost_in_flight) (init True))) 1
     = Some (RequestTimer 1 (Tag ''shot_result'') 10000)"
proof -
  let ?s = "run (take 4 lost_in_flight) (init True)"
  have p: "promises ?s 0 = Some Pending" "promises ?s 1 = Some Pending"
    and h: "messageHandlers ?s (Tag ''status'') = Some (OneShot 0 (Tag ''status''))"
      "messageHandlers ?s (Tag ''shot_result'') = Some (OneShot 1 (Tag ''shot_result''))"
    and t: "timers ?s 1 = Some (RequestTimer 1 (Tag ''shot_result'') 10000)"
    by (simp_all add: scenarios hook_defs)
  show ?thesis
    using close_keeps_outstanding_requests
      [of 1006 "[]" ?s 0 "take 4 lost_in_flight" True 1 1 "Tag ''shot_result''" 10000]
      p h t
    by simp
qed

section \<open>A request and a subscriber on one tag\<close>

text \<open>
  Claim C2. The claim asks that a frame whose tag has both a pending request and a
  subscriber registered before the request reaches both. The hook keeps one handler
  per tag in one map for both kinds: the caller subscribes to \<open>status\<close> (the
  subscriber is in the map), then sends the \<open>status\<close> command (the one-time handler
  takes its place). The reply resolves the request's future and removes the entry; the
  subscriber is not called, neither for the reply nor for a later \<open>status\<close> frame.
\<close>

theorem request_replaces_subscriber:
  "messageHandlers (run (take 3 subscribed_then_sent) (init True)) (Tag ''status'')
     = Some (Subscriber 7)
   \<and> messageHandlers (run (take 4 subscribed_then_sent) (init True)) (Tag ''status'')
     = Some (OneShot 0 (Tag ''status''))
   \<and> promises (run (take 5 subscribed_then_sent) (init True)) 0
     = Some (Resolved (Payload status_frame))
   \<and> delivered (run (take 5 subscribed_then_sent) (init True)) = []
   \<and> messageHandlers (run (take 5 subscribed_then_sent) (init True)) (Tag ''status'') = None
   \<and> delivered (run subscribed_then_sent (init True)) = []"
  by (simp add: scenarios hook_defs)

section \<open>Two requests on one tag\<close>








text \<open>
  Nothing that happens afterwards settles the first future.
\<close>

lemma first_request_stranded: "stranded 0 (run two_in_flight (init True))"
  unfolding stranded_def by (simp add: scenarios hook_defs)

lemma first_request_pending_forever:
  "promises (run es (run two_in_flight (init True))) 0 = Some Pending"
  using first_request_stranded by (rule stranded_forever)



section \<open>The request timeout\<close>

text \<open>
  When the timer of a request fires while a handler is registered under the request's
  key and the future is pending, the future is rejected with \<open>Request timeout\<close>, the
  handler is removed, and nothing that happens later changes the future.
\<close>

lemma timeout_rejects_registered_request:
  assumes "s = run es0 (init ok)"
    and "timers s tid = Some (RequestTimer p k d)"
    and "messageHandlers s k \<noteq> None"
    and "promises s p = Some Pending"
  shows "promises (fireTimer tid s) p = Some (Rejected RequestTimeout)"
    and "messageHandlers (fireTimer tid s) k = None"
    and "promises (run es (fireTimer tid s)) p = Some (Rejected RequestTimeout)"
proof -
  show r: "promises (fireTimer tid s) p = Some (Rejected RequestTimeout)"
    using assms by (simp add: promises_fireTimer)
  show "messageHandlers (fireTimer tid s) k = None"
    using assms by (simp add: messageHandlers_fireTimer)
  have "promisesFresh (run (es0 @ [FireTimer tid]) (init ok))"
    by (rule promisesFresh_reachable)
  then have "promisesFresh (fireTimer tid s)"
    by (simp add: assms(1) run_append step_def)
  then have "settledAs p (Rejected RequestTimeout) (fireTimer tid s)"
    using r by (simp add: settledAs_def)
  then have "settledAs p (Rejected RequestTimeout) (run es (fireTimer tid s))"
    by (rule settledAs_run)
  then show "promises (run es (fireTimer tid s)) p = Some (Rejected RequestTimeout)"
    by (simp add: settledAs_def)
qed

text \<open>
  Claim C4. The claim asks that every request whose reply does not arrive within 10
  seconds is rejected with the timeout. The timer of a request is not cleared when the
  reply arrives, and its callback tests whether any handler is under the tag. A
  \<open>status\<close> request is answered; it is sent again five seconds later. Ten seconds
  after the first send the timer of the first request fires, finds the handler of the
  second request under the tag and removes it. No reply to the second request has
  arrived when its own timer fires, ten seconds after it was sent: the timer finds no
  handler and rejects nothing. The second future is pending then, and still pending
  after a later reply.
\<close>

theorem stale_timer_removes_later_waiter:
  "timely resent_within_ten_seconds (init True)
   \<and> promises (run (take 4 resent_within_ten_seconds) (init True)) 0
       = Some (Resolved (Payload status_frame))
   \<and> messageHandlers (run (take 6 resent_within_ten_seconds) (init True)) (Tag ''status'')
       = Some (OneShot 1 (Tag ''status''))
   \<and> timers (run (take 6 resent_within_ten_seconds) (init True)) 1
       = Some (RequestTimer 1 (Tag ''status'') 15000)
   \<and> messageHandlers (run (take 8 resent_within_ten_seconds) (init True)) (Tag ''status'') = None
   \<and> now (run (take 10 resent_within_ten_seconds) (init True)) = 15000
   \<and> timers (run (take 10 resent_within_ten_seconds) (init True)) 1 = None
   \<and> promises (run (take 10 resent_within_ten_seconds) (init True)) 1 = Some Pending
   \<and> promises (run resent_within_ten_seconds (init True)) 1 = Some Pending"
  by (simp add: scenarios hook_defs)

text \<open>
  Nothing that happens afterwards settles the second future.
\<close>

lemma later_request_stranded: "stranded 1 (run (take 10 resent_within_ten_seconds) (init True))"
  unfolding stranded_def by (simp add: scenarios hook_defs)

lemma later_request_pending_forever:
  "promises (run es (run (take 10 resent_within_ten_seconds) (init True))) 1 = Some Pending"
  using later_request_stranded by (rule stranded_forever)

section \<open>Commands without a response type\<close>

text \<open>
  A message with no \<open>command\<close>, the \<open>ping\<close> command, and a command that is neither
  a key of \<open>responseMap\<close> nor a member of \<open>Object.prototype\<close>: on an open socket the
  future is resolved at once with the acknowledgment, and no handler and no timer is
  registered.
\<close>

lemma unmapped_command_resolves_at_once:
  assumes "wsOpen s" and "serializable m"
    and "command m = None \<or> command m = Some ''ping''
         \<or> (\<exists>c. command m = Some c \<and> map_of responseMap c = None \<and> c \<notin> set objectPrototype)"
  shows "promises (snd (sendMessage m s)) (fst (sendMessage m s)) = Some (Resolved Ack)"
    and "messageHandlers (snd (sendMessage m s)) = messageHandlers s"
    and "timers (snd (sendMessage m s)) = timers s"
proof -
  have "waiterKey m s = None"
    using assms by (auto simp: waiterKey_def getResponseType_def)
  then show "promises (snd (sendMessage m s)) (fst (sendMessage m s)) = Some (Resolved Ack)"
    and "messageHandlers (snd (sendMessage m s)) = messageHandlers s"
    and "timers (snd (sendMessage m s)) = timers s"
    using assms(1,2)
    by (simp_all add: promises_sendMessage fst_sendMessage messageHandlers_sendMessage
          timers_sendMessage)
qed

text \<open>
  Claim C5. The claim asks that every command that is not a key of the table is
  resolved at once. \<open>responseMap[command]\<close> also finds what the object literal
  inherits: for the command \<open>constructor\<close>, which is not a key of the table, it yields
  the function \<open>Object\<close>, which is truthy. On an open socket \<open>sendMessage\<close> registers a
  one-time handler under that value and a 10-second timer, and the future stays
  pending; no frame can carry that value as its type, and the timer rejects the future
  with \<open>Request timeout\<close>.
\<close>

theorem inherited_name_is_awaited:
  "getResponseType ''constructor'' = Some (Inherited ''constructor'')
   \<and> map_of responseMap ''constructor'' = None
   \<and> wsOpen (run (take 2 inherited_name_sent) (init True))
   \<and> promises (run inherited_name_sent (init True)) 0 = Some Pending
   \<and> messageHandlers (run inherited_name_sent (init True)) (Inherited ''constructor'')
       = Some (OneShot 0 (Inherited ''constructor''))
   \<and> timers (run inherited_name_sent (init True)) 0
       = Some (RequestTimer 0 (Inherited ''constructor'') 10000)
   \<and> timely (inherited_name_sent @ [Elapse 10000, FireTimer 0]) (init True)
   \<and> promises (run (inherited_name_sent @ [Elapse 10000, FireTimer 0]) (init True)) 0
       = Some (Rejected RequestTimeout)"
  by (simp add: scenarios hook_defs)

end
